theory Spec2Isabelle
  imports Main
begin

section \<open>Data model\<close>

text \<open>
  The chat view (component \<open>ChatWindow\<close>) keeps the messages of one conversation in React
  state and talks to a managed platform: a relational store queried over the network, a
  feed of change notifications, and a registry of channels. Identifiers are UUID
  strings. The column \<open>created_at\<close> is a timestamp that only the store compares
  (\<open>order\<close>, \<open>lt\<close>); it is modelled as a natural number (a count of microseconds).
  Strings are byte strings: a code unit above \<open>0xFF\<close> is not represented.
\<close>

type_synonym uuid = string
type_synonym timestamp = nat

text \<open>The SQL enum \<open>public.message_type\<close>.\<close>

datatype message_type = TextType | ImageType | EmojiType

text \<open>A row of \<open>public.messages\<close>: the columns the client filters on, reads or writes.\<close>

record message_row =
  row_id :: uuid
  row_conversation_id :: uuid
  row_sender_id :: uuid
  row_message_type :: message_type
  row_content :: "string option"
  row_image_url :: "string option"
  row_is_deleted :: bool
  row_created_at :: timestamp

text \<open>A row of \<open>public.profiles\<close> as selected: \<open>id, username, display_name, avatar_url\<close>.\<close>

record profile_row =
  profile_id :: uuid
  profile_username :: string
  profile_display_name :: "string option"
  profile_avatar_url :: "string option"

text \<open>The interface \<open>Message\<close> of the component, with its nested \<open>sender_profile\<close>.\<close>

record sender_profile =
  username :: string
  display_name :: string
  avatar_url :: "string option"

record message =
  msg_id :: uuid
  content :: "string option"
  image_url :: "string option"
  created_at :: timestamp
  sender_id :: uuid
  sender_profile :: sender_profile

text \<open>The object \<open>messageData\<close> handed to \<open>insert\<close>.\<close>

record message_data =
  md_conversation_id :: uuid
  md_sender_id :: uuid
  md_content :: "string option"
  md_image_url :: "string option"
  md_message_type :: message_type

record image_file =
  file_name :: string

section \<open>The platform as the component sees it\<close>

text \<open>
  The query built in \<open>fetchMessages\<close>:
  \<open>.eq("conversation_id", c).eq("is_deleted", false).order("created_at", {ascending: false}).limit(50)\<close>,
  with \<open>.lt("created_at", t)\<close> added for a page of older messages.
\<close>

record messages_query =
  q_conversation_id :: uuid
  q_is_deleted :: bool
  q_ascending :: bool
  q_limit :: "nat option"
  q_lt_created_at :: "timestamp option"

text \<open>The answer \<open>{ data, error }\<close> of a query.\<close>

record 'a response =
  data :: "'a option"
  error :: "string option"

datatype request =
    SelectMessages messages_query
  | SelectProfilesIn "uuid list"
  | SelectProfileSingle uuid
  | InsertMessage message_data
  | StorageUpload uuid nat image_file

record toast =
  title :: string
  description :: string
  variant :: string

text \<open>
  A realtime channel object: its identity, the conversation of its filter
  \<open>conversation_id=eq.c\<close> and the \<open>Date.now()\<close> of its name.
\<close>

record channel =
  chan_id :: nat
  chan_conversation :: uuid
  chan_created :: nat

text \<open>
  What lies outside the component: the channels the client holds, the identities of those
  among them that it has been asked to remove and that are not closed yet, the notices
  shown by \<open>toast\<close>, and the log of network calls issued.
\<close>

record platform =
  channels :: "channel list"
  closing :: "nat list"
  next_channel :: nat
  toasts :: "toast list"
  requests :: "request list"

text \<open>
  \<open>supabase.removeChannel(channel)\<close> is called and never awaited. The call asks the
  client to close the channel; the channel leaves the client's list when the platform has
  closed it, which is an event of its own (\<open>channel_closed\<close>), at any later moment.
  A channel is live as long as its removal has not been asked for.
\<close>

definition removeChannel :: "channel \<Rightarrow> platform \<Rightarrow> platform" where
  "removeChannel c p = p\<lparr>closing := closing p @ [chan_id c]\<rparr>"

definition channel_closed :: "nat \<Rightarrow> platform \<Rightarrow> platform" where
  "channel_closed n p =
     (if n \<in> set (closing p)
      then p\<lparr>channels := filter (\<lambda>d. chan_id d \<noteq> n) (channels p), closing := removeAll n (closing p)\<rparr>
      else p)"


definition new_channel :: "uuid \<Rightarrow> nat \<Rightarrow> platform \<Rightarrow> channel \<times> platform" where
  "new_channel c now p =
     (let ch = \<lparr>chan_id = next_channel p, chan_conversation = c, chan_created = now\<rparr>
      in (ch, p\<lparr>channels := channels p @ [ch], next_channel := Suc (next_channel p)\<rparr>))"

definition call :: "request \<Rightarrow> platform \<Rightarrow> platform" where
  "call r p = p\<lparr>requests := requests p @ [r]\<rparr>"

definition notify :: "toast \<Rightarrow> platform \<Rightarrow> platform" where
  "notify t p = p\<lparr>toasts := toasts p @ [t]\<rparr>"

subsection \<open>The store's answers\<close>

text \<open>
  The store evaluates a query over its rows: the equality and range filters, the order on
  \<open>created_at\<close> and the limit. Rows with equal timestamps come in the order the stable
  sort leaves them.
\<close>

definition matches :: "messages_query \<Rightarrow> message_row \<Rightarrow> bool" where
  "matches q r \<longleftrightarrow>
     row_conversation_id r = q_conversation_id q \<and>
     row_is_deleted r = q_is_deleted q \<and>
     (case q_lt_created_at q of None \<Rightarrow> True | Some t \<Rightarrow> row_created_at r < t)"

definition ordered :: "bool \<Rightarrow> message_row list \<Rightarrow> message_row list" where
  "ordered asc rs = (if asc then sort_key row_created_at rs else rev (sort_key row_created_at rs))"

definition run_query :: "message_row list \<Rightarrow> messages_query \<Rightarrow> message_row list" where
  "run_query db q =
     (let rs = ordered (q_ascending q) (filter (matches q) db)
      in case q_limit q of None \<Rightarrow> rs | Some n \<Rightarrow> take n rs)"

definition answer :: "message_row list \<Rightarrow> messages_query \<Rightarrow> message_row list response" where
  "answer db q = \<lparr>data = Some (run_query db q), error = None\<rparr>"

definition failure :: "string \<Rightarrow> 'a response" where
  "failure e = \<lparr>data = None, error = Some e\<rparr>"

definition profiles_in :: "profile_row list \<Rightarrow> uuid list \<Rightarrow> profile_row list response" where
  "profiles_in ps ids = \<lparr>data = Some (filter (\<lambda>pr. profile_id pr \<in> set ids) ps), error = None\<rparr>"

section \<open>The component \<open>ChatWindow\<close>\<close>

text \<open>
  The props \<open>conversationId\<close> and \<open>currentUser\<close> (of which only the id is read), the
  React state, and the ref \<open>channelRef\<close>.
\<close>

record chat_window =
  conversationId :: "uuid option"
  currentUser :: "uuid option"
  messages :: "message list"
  newMessage :: string
  selectedImage :: "image_file option"
  loading :: bool
  hasMore :: bool
  isLoadingMore :: bool
  channelRef :: "channel option"

text \<open>The state of a freshly mounted component (the \<open>useState\<close> initial values).\<close>

definition mounted :: "uuid option \<Rightarrow> uuid option \<Rightarrow> chat_window" where
  "mounted c u =
     \<lparr>conversationId = c, currentUser = u, messages = [], newMessage = [],
      selectedImage = None, loading = False, hasMore = True, isLoadingMore = False,
      channelRef = None\<rparr>"

text \<open>JavaScript truthiness of a nullable string: \<open>null\<close> and \<open>""\<close> are falsy.\<close>

definition truthy :: "string option \<Rightarrow> bool" where
  "truthy s = (case s of None \<Rightarrow> False | Some v \<Rightarrow> v \<noteq> [])"

text \<open>\<open>a || b\<close> for a nullable string \<open>a\<close>.\<close>

definition or_else :: "string option \<Rightarrow> string \<Rightarrow> string" where
  "or_else a b = (case a of None \<Rightarrow> b | Some v \<Rightarrow> if v = [] then b else v)"

subsection \<open>Sender profiles\<close>

definition unknown_user :: sender_profile where
  "unknown_user = \<lparr>username = ''Unknown User'', display_name = ''Unknown User'', avatar_url = None\<rparr>"

text \<open>
  The object literal built both in \<open>fetchMessages\<close> and in the INSERT handler:
  \<open>profile ? { username, display_name: profile.display_name || profile.username, avatar_url } : { 'Unknown User', ... }\<close>.
\<close>

definition to_sender_profile :: "profile_row option \<Rightarrow> sender_profile" where
  "to_sender_profile profile =
     (case profile of
        Some pr \<Rightarrow>
          \<lparr>username = profile_username pr,
           display_name = or_else (profile_display_name pr) (profile_username pr),
           avatar_url = profile_avatar_url pr\<rparr>
      | None \<Rightarrow> unknown_user)"

definition to_message :: "message_row \<Rightarrow> profile_row option \<Rightarrow> message" where
  "to_message msg profile =
     \<lparr>msg_id = row_id msg, content = row_content msg, image_url = row_image_url msg,
      created_at = row_created_at msg, sender_id = row_sender_id msg,
      sender_profile = to_sender_profile profile\<rparr>"

text \<open>\<open>[...new Set(xs)]\<close>: the distinct elements in the order of their first occurrence.\<close>

definition unique :: "'a list \<Rightarrow> 'a list" where
  "unique xs = rev (remdups (rev xs))"

text \<open>\<open>profilesData?.forEach(profile => profilesMap.set(profile.id, profile))\<close>.\<close>

definition profilesMap :: "profile_row list option \<Rightarrow> (uuid \<rightharpoonup> profile_row)" where
  "profilesMap profilesData =
     (case profilesData of
        None \<Rightarrow> Map.empty
      | Some ps \<Rightarrow> fold (\<lambda>pr m. m(profile_id pr \<mapsto> pr)) ps Map.empty)"

subsection \<open>\<open>fetchMessages\<close>\<close>

text \<open>
  \<open>fetchMessages(beforeId, append)\<close> is asynchronous. \<open>fetchMessages_begin\<close> is the part
  before the first \<open>await\<close>: the guard, the two flags and the query, built from the
  \<open>messages\<close> of the render the call was made in. It returns the fetch in flight.
\<close>

definition base_query :: "uuid \<Rightarrow> messages_query" where
  "base_query c =
     \<lparr>q_conversation_id = c, q_is_deleted = False, q_ascending = False,
      q_limit = Some 50, q_lt_created_at = None\<rparr>"

record pending_fetch =
  pf_query :: messages_query
  pf_append :: bool

definition fetchMessages_begin ::
  "chat_window \<Rightarrow> platform \<Rightarrow> uuid option \<Rightarrow> bool \<Rightarrow> chat_window \<times> platform \<times> pending_fetch option" where
  "fetchMessages_begin w p beforeId is_append =
     (case conversationId w of
        None \<Rightarrow> (w, p, None)
      | Some c \<Rightarrow>
          if c = [] \<or> currentUser w = None then (w, p, None)
          else
            let w1 = w\<lparr>loading := \<not> is_append, isLoadingMore := is_append\<rparr>;
                query = base_query c;
                query1 = (if truthy beforeId
                          then (case messages w of
                                  [] \<Rightarrow> query
                                | oldestMsg # _ \<Rightarrow> query\<lparr>q_lt_created_at := Some (created_at oldestMsg)\<rparr>)
                          else query)
            in (w1, call (SelectMessages query1) p, Some \<lparr>pf_query = query1, pf_append = is_append\<rparr>))"

text \<open>The \<open>finally\<close> block.\<close>

definition fetch_finally :: "chat_window \<Rightarrow> chat_window" where
  "fetch_finally w = w\<lparr>loading := False, isLoadingMore := False\<rparr>"

text \<open>
  \<open>fetchMessages_resume\<close> is the rest, run when the answers arrive: the early return on
  \<open>messagesError\<close>, the batched profile lookup (skipped when there is no sender), the
  reversal and the transformation, then \<open>setMessages\<close> and \<open>setHasMore\<close>, which act on
  the state of that later moment. Nothing is read or written between the two awaits, so
  both answers are taken at once; \<open>profiles\<close> answers the lookup for the given identifiers.
\<close>

definition fetchMessages_resume ::
  "chat_window \<Rightarrow> platform \<Rightarrow> pending_fetch \<Rightarrow> message_row list response \<Rightarrow>
   (uuid list \<Rightarrow> profile_row list response) \<Rightarrow> chat_window \<times> platform" where
  "fetchMessages_resume w p f res profiles =
     (if error res \<noteq> None then (fetch_finally w, p)
      else
        let messagesData = (case data res of None \<Rightarrow> [] | Some rs \<Rightarrow> rs);
            senderIds = unique (map row_sender_id messagesData);
            p1 = (if senderIds \<noteq> [] then call (SelectProfilesIn senderIds) p else p);
            pm = (if senderIds \<noteq> [] then profilesMap (data (profiles senderIds)) else Map.empty);
            transformedMessages = map (\<lambda>msg. to_message msg (pm (row_sender_id msg))) (rev messagesData);
            w1 = (if pf_append f then w\<lparr>messages := transformedMessages @ messages w\<rparr>
                  else w\<lparr>messages := transformedMessages\<rparr>);
            w2 = w1\<lparr>hasMore := (length messagesData = 50)\<rparr>
        in (fetch_finally w2, p1))"

text \<open>A fetch whose answers arrive before anything else happens.\<close>

definition fetchMessages ::
  "chat_window \<Rightarrow> platform \<Rightarrow> uuid option \<Rightarrow> bool \<Rightarrow> (messages_query \<Rightarrow> message_row list response) \<Rightarrow>
   (uuid list \<Rightarrow> profile_row list response) \<Rightarrow> chat_window \<times> platform" where
  "fetchMessages w p beforeId is_append store profiles =
     (case fetchMessages_begin w p beforeId is_append of
        (w1, p1, None) \<Rightarrow> (w1, p1)
      | (w1, p1, Some f) \<Rightarrow> fetchMessages_resume w1 p1 f (store (pf_query f)) profiles)"

text \<open>The button \<open>Load More\<close>: \<open>fetchMessages(messages[0]?.id, true)\<close>.\<close>

definition first_id :: "message list \<Rightarrow> uuid option" where
  "first_id ms = (case ms of [] \<Rightarrow> None | m # _ \<Rightarrow> Some (msg_id m))"

subsection \<open>The notification handlers of \<open>subscribeToMessages\<close>\<close>

text \<open>
  The INSERT handler looks the sender's profile up (\<open>.single()\<close>, whose \<open>data\<close> is null on
  an error or when no row matches), builds the message and appends it unless its
  identifier is already held.
\<close>

definition insert_handler ::
  "chat_window \<Rightarrow> platform \<Rightarrow> message_row \<Rightarrow> profile_row response \<Rightarrow> chat_window \<times> platform" where
  "insert_handler w p new res =
     (let p1 = call (SelectProfileSingle (row_sender_id new)) p;
          newMsg = to_message new (data res);
          exists = list_ex (\<lambda>msg. msg_id msg = msg_id newMsg) (messages w)
      in (if exists then w else w\<lparr>messages := messages w @ [newMsg]\<rparr>, p1))"

text \<open>The DELETE handler: \<open>prev.filter(msg => msg.id !== payload.old.id)\<close>.\<close>

definition delete_handler :: "chat_window \<Rightarrow> uuid \<Rightarrow> chat_window" where
  "delete_handler w old_id = w\<lparr>messages := filter (\<lambda>msg. msg_id msg \<noteq> old_id) (messages w)\<rparr>"

subsection \<open>\<open>handleSendMessage\<close>\<close>

text \<open>
  \<open>String.prototype.trim\<close> removes white space and line terminators from both ends; of
  these the byte range holds TAB, LF, VT, FF, CR, SP and NBSP.
\<close>

definition is_space :: "char \<Rightarrow> bool" where
  "is_space ch \<longleftrightarrow> ch \<in> set [CHR 0x09, CHR 0x0A, CHR 0x0B, CHR 0x0C, CHR 0x0D, CHR 0x20, CHR 0xA0]"

definition trim :: "string \<Rightarrow> string" where
  "trim s = rev (dropWhile is_space (rev (dropWhile is_space s)))"

text \<open>An awaited call returns a value or throws an error, whose \<open>message\<close> may be missing.\<close>

datatype 'a outcome = Returned 'a | Threw "string option"

text \<open>
  \<open>uploadImage(file)\<close>: the storage upload under a name made of the user's id and
  \<open>Date.now()\<close>, then the public URL of that name, which the client library computes;
  \<open>null\<close> without a user or when the upload reports an error.
\<close>

definition uploadImage ::
  "chat_window \<Rightarrow> platform \<Rightarrow> image_file \<Rightarrow> nat \<Rightarrow> string option outcome \<Rightarrow> string \<Rightarrow>
   string option outcome \<times> platform" where
  "uploadImage w p f now upload publicUrl =
     (case currentUser w of
        None \<Rightarrow> (Returned None, p)
      | Some u \<Rightarrow>
          let p1 = call (StorageUpload u now f) p
          in (case upload of
                Threw e \<Rightarrow> (Threw e, p1)
              | Returned uploadError \<Rightarrow>
                  if uploadError \<noteq> None then (Returned None, p1)
                  else (Returned (Some publicUrl), p1)))"

definition upload_failed :: toast where
  "upload_failed = \<lparr>title = ''Error'', description = ''Failed to upload image'', variant = ''destructive''\<rparr>"

text \<open>The \<open>catch\<close> block of \<open>handleSendMessage\<close>.\<close>

definition send_catch :: "string option \<Rightarrow> bool \<Rightarrow> chat_window \<Rightarrow> platform \<Rightarrow> chat_window \<times> platform" where
  "send_catch e isUploading w p =
     (if isUploading then w\<lparr>loading := False\<rparr> else w,
      notify \<lparr>title = ''Error'',
              description = or_else e ''Failed to send message. Please try again.'',
              variant = ''destructive''\<rparr> p)"

text \<open>The object \<open>messageData\<close>, from the props and the text of the render and the uploaded image.\<close>

definition messageData :: "uuid \<Rightarrow> uuid \<Rightarrow> string \<Rightarrow> string option \<Rightarrow> message_data" where
  "messageData c u text imageUrl =
     \<lparr>md_conversation_id = c, md_sender_id = u,
      md_content = (if trim text = [] then None else Some (trim text)),
      md_image_url = imageUrl,
      md_message_type = (if truthy imageUrl then ImageType else TextType)\<rparr>"

text \<open>
  From \<open>messageData\<close> on: the insert, whose returned \<open>error\<close> is not looked at, and the
  reset of the input; a thrown error goes to the \<open>catch\<close> block.
\<close>

definition send_insert ::
  "uuid \<Rightarrow> uuid \<Rightarrow> string \<Rightarrow> string option \<Rightarrow> bool \<Rightarrow> string option outcome \<Rightarrow>
   chat_window \<Rightarrow> platform \<Rightarrow> chat_window \<times> platform" where
  "send_insert c u text imageUrl isUploading inserted w p =
     (let p1 = call (InsertMessage (messageData c u text imageUrl)) p
      in (case inserted of
            Threw e \<Rightarrow> send_catch e isUploading w p1
          | Returned _ \<Rightarrow> (w\<lparr>newMessage := [], selectedImage := None\<rparr>, p1)))"

text \<open>
  \<open>handleSendMessage\<close>, with what the platform does as arguments: \<open>now\<close> is \<open>Date.now()\<close>,
  \<open>upload\<close> the outcome of the storage upload, \<open>publicUrl\<close> the URL of the stored object,
  \<open>inserted\<close> the outcome of the insert.
\<close>

definition handleSendMessage ::
  "chat_window \<Rightarrow> platform \<Rightarrow> nat \<Rightarrow> string option outcome \<Rightarrow> string \<Rightarrow> string option outcome \<Rightarrow>
   chat_window \<times> platform" where
  "handleSendMessage w p now upload publicUrl inserted =
     (case (conversationId w, currentUser w) of
        (Some c, Some u) \<Rightarrow>
          if c = [] \<or> (trim (newMessage w) = [] \<and> selectedImage w = None) then (w, p)
          else
            (case selectedImage w of
               None \<Rightarrow> send_insert c u (newMessage w) None False inserted w p
             | Some f \<Rightarrow>
                 (case uploadImage w (p :: platform) f now upload publicUrl of
                    (Threw e, p1) \<Rightarrow> send_catch e True (w\<lparr>loading := True\<rparr>) p1
                  | (Returned imageUrl, p1) \<Rightarrow>
                      let w1 = w\<lparr>loading := False\<rparr>
                      in if \<not> truthy imageUrl then (w1, notify upload_failed p1)
                         else send_insert c u (newMessage w) imageUrl True inserted w1 p1))
      | _ \<Rightarrow> (w, p))"

subsection \<open>The subscription and the effect\<close>

text \<open>
  The pattern \<open>if (channelRef.current) { supabase.removeChannel(channelRef.current); channelRef.current = null; }\<close>,
  which occurs at the start of the effect, in its cleanup, at the start of
  \<open>subscribeToMessages\<close> and in the status callback.
\<close>

definition release :: "chat_window \<Rightarrow> platform \<Rightarrow> chat_window \<times> platform" where
  "release w p =
     (case channelRef w of
        None \<Rightarrow> (w, p)
      | Some ch \<Rightarrow> (w\<lparr>channelRef := None\<rparr>, removeChannel ch p))"

definition subscribeToMessages :: "chat_window \<Rightarrow> platform \<Rightarrow> nat \<Rightarrow> chat_window \<times> platform" where
  "subscribeToMessages w p now =
     (case conversationId w of
        None \<Rightarrow> (w, p)
      | Some c \<Rightarrow>
          if c = [] \<or> currentUser w = None then (w, p)
          else
            (case release w p of
               (w1, p1) \<Rightarrow>
                 (case new_channel c now p1 of
                    (ch, p2) \<Rightarrow> (w1\<lparr>channelRef := Some ch\<rparr>, p2))))"

datatype status = SUBSCRIBED | CHANNEL_ERROR | TIMED_OUT | CLOSED

text \<open>The callback given to \<open>.subscribe\<close>.\<close>

definition status_callback :: "chat_window \<Rightarrow> platform \<Rightarrow> status \<Rightarrow> chat_window \<times> platform" where
  "status_callback w p st = (if st = CHANNEL_ERROR then release w p else (w, p))"

text \<open>
  The body of the effect on \<open>[conversationId, currentUser]\<close> and its cleanup. The body
  starts the initial fetch, which stays in flight, and subscribes.
\<close>

definition effect_body ::
  "chat_window \<Rightarrow> platform \<Rightarrow> nat \<Rightarrow> chat_window \<times> platform \<times> pending_fetch option" where
  "effect_body w p now =
     (case release w p of
        (w1, p1) \<Rightarrow>
          if truthy (conversationId w1) \<and> currentUser w1 \<noteq> None then
            (case fetchMessages_begin w1 p1 None False of
               (w2, p2, f) \<Rightarrow>
                 (case subscribeToMessages w2 p2 now of
                    (w3, p3) \<Rightarrow> (w3, p3, f)))
          else (w1\<lparr>messages := []\<rparr>, p1, None))"

definition effect_cleanup :: "chat_window \<Rightarrow> platform \<Rightarrow> chat_window \<times> platform" where
  "effect_cleanup w p = release w p"

text \<open>
  A render in which a dependency of the effect has changed: the cleanup of the previous
  run, then the body with the new props.
\<close>

definition props_changed ::
  "chat_window \<Rightarrow> platform \<Rightarrow> uuid option \<Rightarrow> uuid option \<Rightarrow> nat \<Rightarrow>
   chat_window \<times> platform \<times> pending_fetch option" where
  "props_changed w p c u now =
     (case effect_cleanup w p of
        (w1, p1) \<Rightarrow> effect_body (w1\<lparr>conversationId := c, currentUser := u\<rparr>) p1 now)"

section \<open>The event loop of one chat view\<close>

text \<open>
  Everything runs on one thread: each event below runs to its next \<open>await\<close> or to its end
  before the next event starts. A fetch in flight is kept until its answer arrives.
\<close>

record system =
  window :: chat_window
  world :: platform
  in_flight :: "pending_fetch list"

datatype event =
    Rendered "uuid option" "uuid option" nat
  | Unmounted
  | LoadMore
  | FetchAnswered nat "message_row list response" "profile_row list response"
  | InsertNotified message_row "profile_row response"
  | DeleteNotified uuid
  | StatusReported status
  | Typed string
  | ImagePicked image_file
  | SendClicked nat "string option outcome" string "string option outcome"
  | ChannelClosed nat

definition enqueue :: "pending_fetch option \<Rightarrow> pending_fetch list \<Rightarrow> pending_fetch list" where
  "enqueue f fs = (case f of None \<Rightarrow> fs | Some x \<Rightarrow> fs @ [x])"

fun step :: "system \<Rightarrow> event \<Rightarrow> system" where
  "step s (Rendered c u now) =
     (case props_changed (window s) (world s) c u now of
        (w, p, f) \<Rightarrow> \<lparr>window = w, world = p, in_flight = enqueue f (in_flight s)\<rparr>)"
| "step s Unmounted =
     (case effect_cleanup (window s) (world s) of
        (w, p) \<Rightarrow> s\<lparr>window := w, world := p\<rparr>)"
| "step s LoadMore =
     (if truthy (conversationId (window s)) \<and> hasMore (window s) \<and> \<not> isLoadingMore (window s) then
        (case fetchMessages_begin (window s) (world s) (first_id (messages (window s))) True of
           (w, p, f) \<Rightarrow> \<lparr>window = w, world = p, in_flight = enqueue f (in_flight s)\<rparr>)
      else s)"
| "step s (FetchAnswered i res pres) =
     (if i < length (in_flight s) then
        (case fetchMessages_resume (window s) (world s) (in_flight s ! i) res (\<lambda>ids. pres) of
           (w, p) \<Rightarrow> \<lparr>window = w, world = p, in_flight = take i (in_flight s) @ drop (Suc i) (in_flight s)\<rparr>)
      else s)"
| "step s (InsertNotified new res) =
     (case insert_handler (window s) (world s) new res of
        (w, p) \<Rightarrow> s\<lparr>window := w, world := p\<rparr>)"
| "step s (DeleteNotified old_id) = s\<lparr>window := delete_handler (window s) old_id\<rparr>"
| "step s (StatusReported st) =
     (case status_callback (window s) (world s) st of
        (w, p) \<Rightarrow> s\<lparr>window := w, world := p\<rparr>)"
| "step s (Typed text) = s\<lparr>window := (window s)\<lparr>newMessage := text\<rparr>\<rparr>"
| "step s (ImagePicked f) = s\<lparr>window := (window s)\<lparr>selectedImage := Some f\<rparr>\<rparr>"
| "step s (SendClicked now upload publicUrl inserted) =
     (case handleSendMessage (window s) (world s) now upload publicUrl inserted of
        (w, p) \<Rightarrow> s\<lparr>window := w, world := p\<rparr>)"
| "step s (ChannelClosed n) = s\<lparr>world := channel_closed n (world s)\<rparr>"

definition run :: "system \<Rightarrow> event list \<Rightarrow> system" where
  "run s evs = foldl step s evs"

definition offline :: platform where
  "offline = \<lparr>channels = [], closing = [], next_channel = 0, toasts = [], requests = []\<rparr>"

text \<open>A view just mounted, before its first effect has run.\<close>

definition fresh :: system where
  "fresh = \<lparr>window = mounted None None, world = offline, in_flight = []\<rparr>"

text \<open>\<open>along ok s evs\<close>: every event of the run satisfies \<open>ok\<close> in the state it meets.\<close>

fun along :: "(system \<Rightarrow> event \<Rightarrow> bool) \<Rightarrow> system \<Rightarrow> event list \<Rightarrow> bool" where
  "along ok s [] = True"
| "along ok s (ev # evs) = (ok s ev \<and> along ok (step s ev) evs)"

subsection \<open>The invariant of the message sequence\<close>

text \<open>Unique by identifier and ascending by creation timestamp.\<close>

definition feed_ok :: "message list \<Rightarrow> bool" where
  "feed_ok ms \<longleftrightarrow> distinct (map msg_id ms) \<and> sorted (map created_at ms)"

text \<open>
  What the platform has to deliver for the invariant to be kept. An inserted row is not
  older than any message held. A page has each row once and is in descending order, as the
  query asks; a page of older messages lies strictly before the first message held, and a
  row that is fetched again carries the timestamp it is held with.
\<close>

definition before_first :: "message_row \<Rightarrow> message list \<Rightarrow> bool" where
  "before_first r ms = (case ms of [] \<Rightarrow> True | m # _ \<Rightarrow> row_created_at r < created_at m)"

definition same_stamp :: "message_row \<Rightarrow> message list \<Rightarrow> bool" where
  "same_stamp r ms = list_all (\<lambda>m. row_id r = msg_id m \<longrightarrow> row_created_at r = created_at m) ms"

fun timely :: "system \<Rightarrow> event \<Rightarrow> bool" where
  "timely s (InsertNotified new res) =
     list_all (\<lambda>m. created_at m \<le> row_created_at new) (messages (window s))"
| "timely s (FetchAnswered i res pres) =
     (case data res of
        None \<Rightarrow> True
      | Some page \<Rightarrow>
          i < length (in_flight s) \<longrightarrow>
            distinct (map row_id page) \<and> sorted (rev (map row_created_at page)) \<and>
            (pf_append (in_flight s ! i) \<longrightarrow>
               list_all (\<lambda>r. before_first r (messages (window s)) \<and> same_stamp r (messages (window s))) page))"
| "timely s _ = True"

subsection \<open>Messages and conversations\<close>

text \<open>
  A \<open>Message\<close> does not carry its conversation; the row of the store with its identifier
  does.
\<close>

definition of_conversation :: "message_row list \<Rightarrow> uuid \<Rightarrow> message \<Rightarrow> bool" where
  "of_conversation db c m = list_ex (\<lambda>r. row_id r = msg_id m \<and> row_conversation_id r = c) db"

definition settled :: "message_row list \<Rightarrow> uuid \<Rightarrow> system \<Rightarrow> bool" where
  "settled db c s \<longleftrightarrow>
     conversationId (window s) = Some c \<and> list_all (of_conversation db c) (messages (window s))"

text \<open>
  An answered fetch was issued for conversation \<open>c\<close>, and its page holds rows of the store
  that belong to the conversation its query names.
\<close>

definition answers_for :: "message_row list \<Rightarrow> uuid \<Rightarrow> pending_fetch \<Rightarrow> message_row list response \<Rightarrow> bool" where
  "answers_for db c f res \<longleftrightarrow>
     q_conversation_id (pf_query f) = c \<and>
     (case data res of
        None \<Rightarrow> True
      | Some page \<Rightarrow> list_all (\<lambda>r. r \<in> set db \<and> row_conversation_id r = q_conversation_id (pf_query f)) page)"

text \<open>The events of a view that stays on conversation \<open>c\<close>.\<close>

fun staying :: "message_row list \<Rightarrow> uuid \<Rightarrow> system \<Rightarrow> event \<Rightarrow> bool" where
  "staying db c s (Rendered c' u now) = (c' = Some c)"
| "staying db c s (InsertNotified new res) = (new \<in> set db \<and> row_conversation_id new = c)"
| "staying db c s (FetchAnswered i res pres) =
     (i < length (in_flight s) \<longrightarrow> answers_for db c (in_flight s ! i) res)"
| "staying db c s _ = True"

subsection \<open>One live channel per view\<close>



section \<open>The application \<open>ChatApp\<close>\<close>

text \<open>
  \<open>ChatApp\<close> renders \<open>ChatWindow\<close> at two places with the same props: in the mobile layout
  while \<open>showMobileChat\<close> holds, and in the desktop layout always (that layout is hidden by a
  style class, not unmounted). Both share the platform client. The fetches the views start
  play no role below and are dropped.
\<close>

record chat_app =
  selectedConversation :: "uuid option"
  showMobileChat :: bool
  user :: "uuid option"
  mobile_view :: "chat_window option"
  desktop_view :: chat_window
  client :: platform

definition mount_view :: "uuid option \<Rightarrow> uuid option \<Rightarrow> platform \<Rightarrow> nat \<Rightarrow> chat_window \<times> platform" where
  "mount_view c u p now = (case effect_body (mounted c u) p now of (w, p1, f) \<Rightarrow> (w, p1))"

text \<open>A view that is rendered again runs its effect when a dependency has changed.\<close>

definition update_view ::
  "chat_window \<Rightarrow> platform \<Rightarrow> uuid option \<Rightarrow> uuid option \<Rightarrow> nat \<Rightarrow> chat_window \<times> platform" where
  "update_view w p c u now =
     (if conversationId w = c \<and> currentUser w = u then (w, p)
      else (case props_changed w p c u now of (w1, p1, f) \<Rightarrow> (w1, p1)))"

text \<open>
  A render of \<open>ChatApp\<close> after a change of its state; \<open>now1\<close> and \<open>now2\<close> are the
  \<open>Date.now()\<close> of the two effects.
\<close>

definition commit :: "chat_app \<Rightarrow> nat \<Rightarrow> nat \<Rightarrow> chat_app" where
  "commit a now1 now2 =
     (case (if showMobileChat a then
              (case mobile_view a of
                 None \<Rightarrow> (case mount_view (selectedConversation a) (user a) (client a) now1 of
                            (w, p) \<Rightarrow> (Some w, p))
               | Some w0 \<Rightarrow> (case update_view w0 (client a) (selectedConversation a) (user a) now1 of
                              (w, p) \<Rightarrow> (Some w, p)))
            else
              (case mobile_view a of
                 None \<Rightarrow> (None, client a)
               | Some w0 \<Rightarrow> (None, snd (effect_cleanup w0 (client a))))) of
        (m, p1) \<Rightarrow>
          (case update_view (desktop_view a) p1 (selectedConversation a) (user a) now2 of
             (d, p2) \<Rightarrow> a\<lparr>mobile_view := m, desktop_view := d, client := p2\<rparr>))"


definition handleBackToSidebar :: "chat_app \<Rightarrow> nat \<Rightarrow> nat \<Rightarrow> chat_app" where
  "handleBackToSidebar a now1 now2 =
     commit (a\<lparr>showMobileChat := False, selectedConversation := None\<rparr>) now1 now2"


section \<open>The earlier \<open>fetchMessages\<close>\<close>

text \<open>
  The file \<open>src/components/chat/ChatWindow.tsx\<close> holds the component without pagination.
  Its \<open>fetchMessages\<close> asks for all messages in ascending order and reports a failed query
  with a notice.
\<close>

text \<open>\<open>String.prototype.includes\<close>.\<close>

fun str_includes :: "string \<Rightarrow> string \<Rightarrow> bool" where
  "str_includes [] x = (x = [])"
| "str_includes (ch # s) x = (take (length x) (ch # s) = x \<or> str_includes s x)"

definition access_denied :: toast where
  "access_denied = \<lparr>title = ''Access Denied'',
     description = ''You don't have access to this conversation'', variant = ''destructive''\<rparr>"

definition load_failed :: toast where
  "load_failed = \<lparr>title = ''Error'',
     description = ''Failed to load messages. Please try again.'', variant = ''destructive''\<rparr>"

definition fetchMessages_legacy ::
  "chat_window \<Rightarrow> platform \<Rightarrow> (messages_query \<Rightarrow> message_row list response) \<Rightarrow>
   (uuid list \<Rightarrow> profile_row list response) \<Rightarrow> chat_window \<times> platform" where
  "fetchMessages_legacy w p store profiles =
     (case conversationId w of
        None \<Rightarrow> (w, p)
      | Some c \<Rightarrow>
          if c = [] \<or> currentUser w = None then (w, p)
          else
            let w1 = w\<lparr>loading := True\<rparr>;
                query = \<lparr>q_conversation_id = c, q_is_deleted = False, q_ascending = True,
                         q_limit = None, q_lt_created_at = None\<rparr>;
                p1 = call (SelectMessages query) p;
                res = store query
            in (case error res of
                  Some e \<Rightarrow>
                    (w1\<lparr>loading := False\<rparr>,
                     notify (if str_includes e ''row-level security'' then access_denied else load_failed) p1)
                | None \<Rightarrow>
                    let messagesData = (case data res of None \<Rightarrow> [] | Some rs \<Rightarrow> rs);
                        senderIds = unique (map row_sender_id messagesData)
                    in if senderIds \<noteq> [] then
                         let p2 = call (SelectProfilesIn senderIds) p1;
                             pm = profilesMap (data (profiles senderIds));
                             transformedMessages =
                               map (\<lambda>msg. to_message msg (pm (row_sender_id msg))) messagesData
                         in (w1\<lparr>messages := transformedMessages, loading := False\<rparr>, p2)
                       else (w1\<lparr>messages := [], loading := False\<rparr>, p1)))"

section \<open>Example data\<close>

text \<open>Stores, profiles and runs used to replay the code on concrete inputs.\<close>

definition text_row :: "uuid \<Rightarrow> uuid \<Rightarrow> uuid \<Rightarrow> timestamp \<Rightarrow> message_row" where
  "text_row i c u t =
     \<lparr>row_id = i, row_conversation_id = c, row_sender_id = u, row_message_type = TextType,
      row_content = Some ''hi'', row_image_url = None, row_is_deleted = False, row_created_at = t\<rparr>"

definition people :: "profile_row list" where
  "people = [\<lparr>profile_id = ''u1'', profile_username = ''ann'', profile_display_name = None,
              profile_avatar_url = None\<rparr>]"

definition friends :: "profile_row list" where
  "friends =
     [\<lparr>profile_id = ''u1'', profile_username = ''ann'', profile_display_name = Some ''Ann A.'',
       profile_avatar_url = Some ''ann.png''\<rparr>,
      \<lparr>profile_id = ''u2'', profile_username = ''bob'', profile_display_name = Some [],
       profile_avatar_url = None\<rparr>]"

definition store1 :: "message_row list" where
  "store1 = [text_row ''m1'' ''c1'' ''u1'' 10, text_row ''m2'' ''c1'' ''u2'' 20]"

definition orderly :: "event list" where
  "orderly =
     [Rendered (Some ''c1'') (Some ''u1'') 1,
      FetchAnswered 0 (failure ''network'') (failure ''network''),
      InsertNotified (text_row ''m2'' ''c1'' ''u2'' 20) (failure ''no rows''),
      LoadMore,
      FetchAnswered 0 (answer store1 ((base_query ''c1'')\<lparr>q_lt_created_at := Some 20\<rparr>))
        (profiles_in people [''u1'']),
      InsertNotified (text_row ''m3'' ''c1'' ''u1'' 30) (failure ''no rows''),
      InsertNotified (text_row ''m3'' ''c1'' ''u1'' 30) (failure ''no rows''),
      DeleteNotified ''m1'']"

definition late_insert :: "event list" where
  "late_insert =
     [Rendered (Some ''c1'') (Some ''u1'') 1,
      FetchAnswered 0 (answer [text_row ''m2'' ''c1'' ''u2'' 20] (base_query ''c1'')) (profiles_in people [''u2'']),
      InsertNotified (text_row ''m1'' ''c1'' ''u1'' 10) (failure ''no rows'')]"

definition early_click :: "event list" where
  "early_click =
     [Rendered (Some ''c1'') (Some ''u1'') 1,
      LoadMore,
      FetchAnswered 0 (answer store1 (base_query ''c1'')) (profiles_in people [''u2'', ''u1'']),
      FetchAnswered 0 (answer store1 (base_query ''c1'')) (profiles_in people [''u2'', ''u1''])]"




definition two_rooms :: "message_row list" where
  "two_rooms = [text_row ''m1'' ''c1'' ''u1'' 10, text_row ''m2'' ''c2'' ''u2'' 20]"

definition quick_switch :: "event list" where
  "quick_switch =
     [Rendered (Some ''c1'') (Some ''u1'') 1,
      Rendered (Some ''c2'') (Some ''u1'') 2,
      FetchAnswered 1 (answer two_rooms (base_query ''c2'')) (profiles_in people [''u2'']),
      FetchAnswered 0 (answer two_rooms (base_query ''c1'')) (profiles_in people [''u1''])]"





text \<open>The view moves from \<open>c1\<close>, loaded, to \<open>c2\<close>, whose initial fetch fails.\<close>

definition failed_switch :: "event list" where
  "failed_switch =
     [Rendered (Some ''c1'') (Some ''u1'') 1,
      FetchAnswered 0 (answer two_rooms (base_query ''c1'')) (profiles_in people [''u1'']),
      Rendered (Some ''c2'') (Some ''u1'') 2,
      FetchAnswered 0 (failure ''network'') (failure ''network'')]"


definition same_room :: "event list" where
  "same_room =
     [InsertNotified (text_row ''m3'' ''c1'' ''u1'' 30) (failure ''no rows''),
      DeleteNotified ''m1'']"

definition three_rows :: "message_row list" where
  "three_rows = two_rooms @ [text_row ''m3'' ''c1'' ''u1'' 30]"

section \<open>Properties of the store's answers\<close>

lemma set_ordered: "set (ordered asc rs) = set rs"
  by (simp add: ordered_def)

lemma length_ordered: "length (ordered asc rs) = length rs"
  by (simp add: ordered_def)

lemma ordered_desc: "sorted (rev (map row_created_at (ordered False rs)))"
  by (simp add: ordered_def rev_map)

lemma distinct_ids_ordered:
  "distinct (map row_id rs) \<Longrightarrow> distinct (map row_id (ordered asc rs))"
  by (simp add: distinct_map ordered_def)

lemma run_query_sound: "r \<in> set (run_query db q) \<Longrightarrow> r \<in> set db \<and> matches q r"
  by (auto simp: run_query_def Let_def set_ordered split: option.splits dest!: in_set_takeD)

lemma run_query_length:
  "q_limit q = Some n \<Longrightarrow> length (run_query db q) = min n (length (filter (matches q) db))"
  by (simp add: run_query_def Let_def length_ordered min.commute)

lemma run_query_desc:
  "\<not> q_ascending q \<Longrightarrow> sorted (rev (map row_created_at (run_query db q)))"
proof -
  assume a: "\<not> q_ascending q"
  let ?rs = "ordered False (filter (matches q) db)"
  have s: "sorted (rev (map row_created_at ?rs))" by (rule ordered_desc)
  have "sorted (rev (map row_created_at (take n ?rs)))" for n
  proof -
    have "rev (map row_created_at ?rs) = rev (map row_created_at (drop n ?rs)) @ rev (map row_created_at (take n ?rs))"
      by (metis append_take_drop_id map_append rev_append)
    with s show ?thesis by (simp add: sorted_append)
  qed
  with s a show ?thesis by (simp add: run_query_def Let_def split: option.splits)
qed

lemma run_query_recent:
  assumes "\<not> q_ascending q" "r \<in> set db" "matches q r" "r \<notin> set (run_query db q)"
    "r' \<in> set (run_query db q)"
  shows "row_created_at r \<le> row_created_at r'"
proof (cases "q_limit q")
  case None
  with assms show ?thesis by (simp add: run_query_def Let_def set_ordered)
next
  case (Some n)
  let ?rs = "ordered False (filter (matches q) db)"
  have rq: "run_query db q = take n ?rs" using Some assms(1) by (simp add: run_query_def Let_def)
  have "r \<in> set ?rs" using assms by (simp add: set_ordered)
  then have "r \<in> set (take n ?rs) \<union> set (drop n ?rs)" by (metis append_take_drop_id set_append)
  with assms(4) rq have rd: "r \<in> set (drop n ?rs)" by simp
  have "rev (map row_created_at ?rs) =
        rev (map row_created_at (drop n ?rs)) @ rev (map row_created_at (take n ?rs))"
    by (metis append_take_drop_id map_append rev_append)
  with ordered_desc[of "filter (matches q) db"]
  have "sorted (rev (map row_created_at (drop n ?rs)) @ rev (map row_created_at (take n ?rs)))"
    by simp
  then have "\<forall>x\<in>set (drop n ?rs). \<forall>y\<in>set (take n ?rs). row_created_at x \<le> row_created_at y"
    by (simp add: sorted_append)
  with rd assms(5) rq show ?thesis by simp
qed

lemma run_query_distinct:
  "distinct (map row_id db) \<Longrightarrow> distinct (map row_id (run_query db q))"
proof -
  assume "distinct (map row_id db)"
  then have "distinct (map row_id (filter (matches q) db))" by (rule distinct_map_filter)
  then have "distinct (map row_id (ordered (q_ascending q) (filter (matches q) db)))"
    by (rule distinct_ids_ordered)
  then show ?thesis
    by (auto simp: run_query_def Let_def take_map[symmetric] split: option.splits intro: distinct_take)
qed

section \<open>Properties of the component\<close>

lemma set_unique: "set (unique xs) = set xs"
  by (simp add: unique_def)

lemma distinct_unique: "distinct (unique xs)"
  by (simp add: unique_def)

lemma unique_Nil_iff: "unique xs = [] \<longleftrightarrow> xs = []"
  by (metis set_unique set_empty)

lemma created_at_to_message: "created_at (to_message r pr) = row_created_at r"
  by (simp add: to_message_def)

lemma msg_id_to_message: "msg_id (to_message r pr) = row_id r"
  by (simp add: to_message_def)

lemma matches_base: "matches (base_query c) r \<longleftrightarrow> row_conversation_id r = c \<and> \<not> row_is_deleted r"
  by (auto simp: matches_def base_query_def)


lemma find_snoc:
  "find P (xs @ [x]) = (case find P xs of Some y \<Rightarrow> Some y | None \<Rightarrow> if P x then Some x else None)"
  by (induction xs) auto

lemma fold_profiles:
  "fold (\<lambda>pr m. m(profile_id pr \<mapsto> pr)) ps m0 u =
     (case find (\<lambda>pr. profile_id pr = u) (rev ps) of None \<Rightarrow> m0 u | Some pr \<Rightarrow> Some pr)"
  by (induction ps arbitrary: m0) (auto simp: find_snoc split: option.splits)

lemma profilesMap_find:
  "profilesMap pd u =
     (case pd of None \<Rightarrow> None | Some ps \<Rightarrow> find (\<lambda>pr. profile_id pr = u) (rev ps))"
  by (simp add: profilesMap_def fold_profiles split: option.splits)

lemma to_message_explicit:
  "to_message r (profilesMap pd (row_sender_id r)) =
     \<lparr>msg_id = row_id r, content = row_content r, image_url = row_image_url r,
                created_at = row_created_at r, sender_id = row_sender_id r,
                sender_profile =
                  (case (case pd of
                           None \<Rightarrow> None
                         | Some ps \<Rightarrow> find (\<lambda>pr. profile_id pr = row_sender_id r) (rev ps)) of
                     None \<Rightarrow> \<lparr>username = ''Unknown User'', display_name = ''Unknown User'', avatar_url = None\<rparr>
                   | Some pr \<Rightarrow>
                       \<lparr>username = profile_username pr,
                        display_name =
                          (case profile_display_name pr of
                             None \<Rightarrow> profile_username pr
                           | Some d \<Rightarrow> if d = [] then profile_username pr else d),
                        avatar_url = profile_avatar_url pr\<rparr>)\<rparr>"
  by (simp add: to_message_def to_sender_profile_def unknown_user_def or_else_def profilesMap_find
      split: option.splits)

lemma resume_success:
  assumes "error res = None" "data res = Some page"
  shows "messages (fst (fetchMessages_resume w p f res profiles)) =
           map (\<lambda>r. to_message r (profilesMap (data (profiles (unique (map row_sender_id page)))) (row_sender_id r))) (rev page)
           @ (if pf_append f then messages w else [])"
    and "hasMore (fst (fetchMessages_resume w p f res profiles)) \<longleftrightarrow> length page = 50"
    and "requests (snd (fetchMessages_resume w p f res profiles)) =
           requests p @ (if page = [] then [] else [SelectProfilesIn (unique (map row_sender_id page))])"
  using assms
  by (auto simp: fetchMessages_resume_def Let_def fetch_finally_def call_def unique_Nil_iff)

lemma fetch_initial_unfold:
  assumes "conversationId w = Some c" "c \<noteq> []" "currentUser w = Some u"
  shows "fetchMessages w p None False store profiles =
         fetchMessages_resume (w\<lparr>loading := True, isLoadingMore := False\<rparr>)
           (call (SelectMessages (base_query c)) p)
           \<lparr>pf_query = base_query c, pf_append = False\<rparr> (store (base_query c)) profiles"
  using assms by (simp add: fetchMessages_def fetchMessages_begin_def Let_def truthy_def)


subsection \<open>Frame lemmas\<close>

lemma begin_frame:
  "messages (fst (fetchMessages_begin w p b a)) = messages w"
  "channelRef (fst (fetchMessages_begin w p b a)) = channelRef w"
  "conversationId (fst (fetchMessages_begin w p b a)) = conversationId w"
  "channels (fst (snd (fetchMessages_begin w p b a))) = channels p"
  by (auto simp: fetchMessages_begin_def Let_def call_def split: option.splits list.splits)

lemma resume_frame:
  "channelRef (fst (fetchMessages_resume w p f res profiles)) = channelRef w"
  "conversationId (fst (fetchMessages_resume w p f res profiles)) = conversationId w"
  "channels (snd (fetchMessages_resume w p f res profiles)) = channels p"
  by (auto simp: fetchMessages_resume_def Let_def call_def fetch_finally_def)

lemma resume_failure:
  "error res \<noteq> None \<Longrightarrow> fetchMessages_resume w p f res profiles = (fetch_finally w, p)"
  by (simp add: fetchMessages_resume_def)

lemma resume_messages:
  "error res = None \<Longrightarrow>
   \<exists>g. messages (fst (fetchMessages_resume w p f res profiles)) =
         map (\<lambda>r. to_message r (g r)) (rev (case data res of None \<Rightarrow> [] | Some rs \<Rightarrow> rs))
         @ (if pf_append f then messages w else [])"
  by (auto simp: fetchMessages_resume_def Let_def fetch_finally_def)

lemma insert_frame:
  "channelRef (fst (insert_handler w p new res)) = channelRef w"
  "conversationId (fst (insert_handler w p new res)) = conversationId w"
  "channels (snd (insert_handler w p new res)) = channels p"
  by (auto simp: insert_handler_def Let_def call_def)

lemma insert_messages:
  "messages (fst (insert_handler w p new res)) =
     (if row_id new \<in> msg_id ` set (messages w) then messages w
      else messages w @ [to_message new (data res)])"
  by (force simp: insert_handler_def Let_def list_ex_iff msg_id_to_message)

lemma send_frame:
  "messages (fst (handleSendMessage w p now upload publicUrl inserted)) = messages w"
  "channelRef (fst (handleSendMessage w p now upload publicUrl inserted)) = channelRef w"
  "conversationId (fst (handleSendMessage w p now upload publicUrl inserted)) = conversationId w"
  "channels (snd (handleSendMessage w p now upload publicUrl inserted)) = channels p"
  by (auto simp: handleSendMessage_def send_insert_def send_catch_def uploadImage_def Let_def
      call_def notify_def split: option.splits outcome.splits prod.splits if_splits)

lemma release_frame:
  "messages (fst (release w p)) = messages w"
  "conversationId (fst (release w p)) = conversationId w"
  "currentUser (fst (release w p)) = currentUser w"
  "channelRef (fst (release w p)) = None"
  by (auto simp: release_def split: option.splits)

lemma subscribe_frame:
  "messages (fst (subscribeToMessages w p now)) = messages w"
  "conversationId (fst (subscribeToMessages w p now)) = conversationId w"
  by (auto simp: subscribeToMessages_def release_def new_channel_def Let_def split: option.splits prod.splits)

lemma effect_body_messages:
  "messages (fst (effect_body w p now)) =
     (if truthy (conversationId w) \<and> currentUser w \<noteq> None then messages w else [])"
  by (auto simp: effect_body_def case_prod_beta release_frame begin_frame subscribe_frame)


lemma props_changed_messages:
  "messages (fst (props_changed w p c u now)) =
     (if truthy c \<and> u \<noteq> None then messages w else [])"
  by (auto simp: props_changed_def effect_cleanup_def case_prod_beta effect_body_messages release_frame)

lemma status_frame:
  "messages (fst (status_callback w p st)) = messages w"
  "conversationId (fst (status_callback w p st)) = conversationId w"
  by (simp_all add: status_callback_def release_frame)

subsection \<open>The sequence invariant\<close>

lemma feed_ok_Nil: "feed_ok []"
  by (simp add: feed_ok_def)

lemma feed_ok_filter: "feed_ok ms \<Longrightarrow> feed_ok (filter P ms)"
  unfolding feed_ok_def
  by (auto simp: distinct_map_filter intro: sorted_filter)

lemma feed_ok_snoc:
  assumes "feed_ok ms" "msg_id x \<notin> msg_id ` set ms" "\<forall>m\<in>set ms. created_at m \<le> created_at x"
  shows "feed_ok (ms @ [x])"
  using assms unfolding feed_ok_def by (auto simp: sorted_append)

lemma feed_ok_page:
  assumes "distinct (map row_id page)" "sorted (rev (map row_created_at page))"
  shows "feed_ok (map (\<lambda>r. to_message r (g r)) (rev page))"
  using assms unfolding feed_ok_def
  by (simp add: o_def msg_id_to_message created_at_to_message rev_map[symmetric] del: sorted_map)

lemma feed_ok_prepend:
  assumes ok: "feed_ok ms"
    and page: "distinct (map row_id page)" "sorted (rev (map row_created_at page))"
    and before: "\<forall>r\<in>set page. before_first r ms \<and> same_stamp r ms"
  shows "feed_ok (map (\<lambda>r. to_message r (g r)) (rev page) @ ms)"
proof -
  have older: "row_created_at r < created_at m" if "r \<in> set page" "m \<in> set ms" for r m
  proof (cases ms)
    case Nil
    with that show ?thesis by simp
  next
    case (Cons m0 rest)
    from ok Cons that have "created_at m0 \<le> created_at m"
      by (auto simp: feed_ok_def)
    moreover from before that Cons have "row_created_at r < created_at m0"
      by (auto simp: before_first_def)
    ultimately show ?thesis by simp
  qed
  have fresh: "row_id r \<noteq> msg_id m" if "r \<in> set page" "m \<in> set ms" for r m
  proof
    assume "row_id r = msg_id m"
    with before that have "row_created_at r = created_at m"
      by (auto simp: same_stamp_def list_all_iff)
    with older[OF that] show False by simp
  qed
  have p: "feed_ok (map (\<lambda>r. to_message r (g r)) (rev page))"
    using page by (rule feed_ok_page)
  show ?thesis
    using p ok older fresh unfolding feed_ok_def
    by (auto simp: sorted_append msg_id_to_message created_at_to_message less_imp_le)
qed

lemma feed_step:
  assumes "feed_ok (messages (window s))" "timely s ev"
  shows "feed_ok (messages (window (step s ev)))"
proof (cases ev)
  case (Rendered c u now)
  with assms show ?thesis
    by (simp add: case_prod_beta props_changed_messages feed_ok_Nil)
next
  case Unmounted
  with assms show ?thesis
    by (simp add: case_prod_beta effect_cleanup_def release_frame)
next
  case LoadMore
  with assms show ?thesis
    by (simp add: case_prod_beta begin_frame)
next
  case (FetchAnswered i res pres)
  show ?thesis
  proof (cases "i < length (in_flight s) \<and> error res = None")
    case False
    with assms FetchAnswered show ?thesis
      by (auto simp: case_prod_beta resume_failure fetch_finally_def)
  next
    case True
    let ?f = "in_flight s ! i"
    let ?page = "case data res of None \<Rightarrow> [] | Some rs \<Rightarrow> rs"
    from True obtain g where g:
      "messages (fst (fetchMessages_resume (window s) (world s) ?f res (\<lambda>ids. pres))) =
         map (\<lambda>r. to_message r (g r)) (rev ?page) @ (if pf_append ?f then messages (window s) else [])"
      using resume_messages[of res "window s" "world s" ?f "\<lambda>ids. pres"] by blast
    have page: "distinct (map row_id ?page)" "sorted (rev (map row_created_at ?page))"
      using assms(2) True FetchAnswered by (auto split: option.splits)
    have "feed_ok (map (\<lambda>r. to_message r (g r)) (rev ?page) @ (if pf_append ?f then messages (window s) else []))"
    proof (cases "pf_append ?f")
      case False
      with page show ?thesis by (simp add: feed_ok_page)
    next
      case app: True
      have "\<forall>r\<in>set ?page. before_first r (messages (window s)) \<and> same_stamp r (messages (window s))"
        using assms(2) True FetchAnswered app by (auto simp: list_all_iff split: option.splits)
      with assms(1) page app show ?thesis by (simp add: feed_ok_prepend)
    qed
    with True FetchAnswered g show ?thesis
      by (simp add: case_prod_beta)
  qed
next
  case (InsertNotified new res)
  with assms show ?thesis
    by (auto simp: case_prod_beta insert_messages list_all_iff created_at_to_message
        msg_id_to_message intro!: feed_ok_snoc)
next
  case (DeleteNotified old_id)
  with assms show ?thesis
    by (simp add: delete_handler_def feed_ok_filter)
next
  case (StatusReported st)
  with assms show ?thesis
    by (simp add: case_prod_beta status_frame)
next
  case (Typed str)
  with assms show ?thesis by simp
next
  case (ImagePicked f)
  with assms show ?thesis by simp
next
  case (SendClicked now upload publicUrl inserted)
  with assms show ?thesis
    by (simp add: case_prod_beta send_frame)
next
  case (ChannelClosed n)
  with assms show ?thesis by simp
qed

lemma feed_run:
  "feed_ok (messages (window s)) \<Longrightarrow> along timely s evs \<Longrightarrow>
   feed_ok (messages (window (run s evs)))"
proof (induction evs arbitrary: s)
  case Nil
  then show ?case by (simp add: run_def)
next
  case (Cons ev evs)
  from Cons.prems have "feed_ok (messages (window (step s ev)))"
    by (simp add: feed_step)
  with Cons.prems Cons.IH[of "step s ev"] show ?case
    by (simp add: run_def)
qed

subsection \<open>One channel per view\<close>




















subsection \<open>Staying on one conversation\<close>

lemma of_conversation_to_message:
  "r \<in> set db \<Longrightarrow> row_conversation_id r = c \<Longrightarrow> of_conversation db c (to_message r pr)"
  by (auto simp: of_conversation_def list_ex_iff msg_id_to_message)

lemma settled_step:
  assumes "settled db c s" "staying db c s ev"
  shows "settled db c (step s ev)"
proof (cases ev)
  case (Rendered c' u now)
  with assms show ?thesis
    by (auto simp: settled_def case_prod_beta props_changed_messages props_changed_def
        effect_cleanup_def effect_body_def release_frame begin_frame subscribe_frame)
next
  case Unmounted
  with assms show ?thesis
    by (simp add: settled_def case_prod_beta effect_cleanup_def release_frame)
next
  case LoadMore
  with assms show ?thesis
    by (simp add: settled_def case_prod_beta begin_frame)
next
  case (FetchAnswered i res pres)
  show ?thesis
  proof (cases "i < length (in_flight s) \<and> error res = None")
    case False
    with assms FetchAnswered show ?thesis
      by (auto simp: settled_def case_prod_beta resume_failure fetch_finally_def)
  next
    case True
    let ?f = "in_flight s ! i"
    let ?page = "case data res of None \<Rightarrow> [] | Some rs \<Rightarrow> rs"
    from True obtain g where g:
      "messages (fst (fetchMessages_resume (window s) (world s) ?f res (\<lambda>ids. pres))) =
         map (\<lambda>r. to_message r (g r)) (rev ?page) @ (if pf_append ?f then messages (window s) else [])"
      using resume_messages[of res "window s" "world s" ?f "\<lambda>ids. pres"] by blast
    have "\<forall>r\<in>set ?page. r \<in> set db \<and> row_conversation_id r = c"
      using assms(2) True FetchAnswered
      by (auto simp: answers_for_def list_all_iff split: option.splits)
    then have "list_all (of_conversation db c) (map (\<lambda>r. to_message r (g r)) (rev ?page))"
      by (auto simp: list_all_iff of_conversation_to_message)
    with assms(1) True FetchAnswered g show ?thesis
      by (simp add: settled_def case_prod_beta resume_frame)
  qed
next
  case (InsertNotified new res)
  with assms show ?thesis
    by (auto simp: settled_def case_prod_beta insert_messages insert_frame of_conversation_to_message)
next
  case (DeleteNotified old_id)
  with assms show ?thesis
    by (auto simp: settled_def delete_handler_def list_all_iff)
next
  case (StatusReported st)
  with assms show ?thesis
    by (simp add: settled_def case_prod_beta status_frame)
next
  case (Typed str)
  with assms show ?thesis by (simp add: settled_def)
next
  case (ImagePicked f)
  with assms show ?thesis by (simp add: settled_def)
next
  case (SendClicked now upload publicUrl inserted)
  with assms show ?thesis
    by (simp add: settled_def case_prod_beta send_frame)
next
  case (ChannelClosed n)
  with assms show ?thesis by (simp add: settled_def)
qed

lemma settled_run:
  "settled db c s \<Longrightarrow> along (staying db c) s evs \<Longrightarrow> settled db c (run s evs)"
proof (induction evs arbitrary: s)
  case Nil
  then show ?case by (simp add: run_def)
next
  case (Cons ev evs)
  from Cons.prems have "settled db c (step s ev)"
    by (simp add: settled_step)
  with Cons.prems Cons.IH[of "step s ev"] show ?case
    by (simp add: run_def)
qed

lemma settled_by_initial_fetch:
  assumes "conversationId (window s) = Some c" "i < length (in_flight s)"
    "\<not> pf_append (in_flight s ! i)" "error res = None"
    "answers_for db c (in_flight s ! i) res"
  shows "settled db c (step s (FetchAnswered i res pres))"
proof -
  let ?f = "in_flight s ! i"
  let ?page = "case data res of None \<Rightarrow> [] | Some rs \<Rightarrow> rs"
  from assms obtain g where g:
    "messages (fst (fetchMessages_resume (window s) (world s) ?f res (\<lambda>ids. pres))) =
       map (\<lambda>r. to_message r (g r)) (rev ?page)"
    using resume_messages[of res "window s" "world s" ?f "\<lambda>ids. pres"] by auto
  have "\<forall>r\<in>set ?page. r \<in> set db \<and> row_conversation_id r = c"
    using assms(5) by (auto simp: answers_for_def list_all_iff split: option.splits)
  then have "list_all (of_conversation db c) (map (\<lambda>r. to_message r (g r)) (rev ?page))"
    by (auto simp: list_all_iff of_conversation_to_message)
  with assms g show ?thesis
    by (simp add: settled_def case_prod_beta resume_frame)
qed

lemma failed_fetch_frame:
  assumes "error res \<noteq> None"
  shows "messages (fst (fetchMessages_resume w p f res profiles)) = messages w"
    and "hasMore (fst (fetchMessages_resume w p f res profiles)) = hasMore w"
    and "snd (fetchMessages_resume w p f res profiles) = p"
  using assms by (simp_all add: resume_failure fetch_finally_def)

lemma legacy_fetch_failure_notice:
  assumes "conversationId w = Some c" "c \<noteq> []" "currentUser w = Some u" "error (store \<lparr>q_conversation_id = c, q_is_deleted = False, q_ascending = True, q_limit = None, q_lt_created_at = None\<rparr>) = Some e"
  shows "messages (fst (fetchMessages_legacy w p store profiles)) = messages w"
    and "toasts (snd (fetchMessages_legacy w p store profiles)) =
           toasts p @ [if str_includes e ''row-level security'' then access_denied else load_failed]"
  using assms by (simp_all add: fetchMessages_legacy_def Let_def call_def notify_def)

lemma dom_profilesMap: "dom (profilesMap (Some ps)) = profile_id ` set ps"
proof -
  have "dom (fold (\<lambda>pr m. m(profile_id pr \<mapsto> pr)) ps m0) = dom m0 \<union> profile_id ` set ps" for m0
    by (induction ps arbitrary: m0) auto
  then show ?thesis by (simp add: profilesMap_def)
qed

lemma profilesMap_miss:
  assumes "pd = None \<or> (\<exists>ps. pd = Some ps \<and> u \<notin> profile_id ` set ps)"
  shows "profilesMap pd u = None"
proof (cases pd)
  case None
  then show ?thesis by (simp add: profilesMap_def)
next
  case (Some ps)
  with assms have "u \<notin> dom (profilesMap (Some ps))"
    by (simp add: dom_profilesMap)
  with Some show ?thesis by (simp add: domIff)
qed

subsection \<open>The example conversation\<close>












text \<open>The definitions that a replay on concrete data unfolds.\<close>

lemmas ev_defs = run_def fresh_def mounted_def offline_def props_changed_def effect_cleanup_def
  effect_body_def release_def fetchMessages_begin_def fetchMessages_resume_def subscribeToMessages_def
  new_channel_def call_def truthy_def enqueue_def base_query_def answer_def run_query_def ordered_def
  matches_def text_row_def unique_def profilesMap_def profiles_in_def people_def to_message_def
  to_sender_profile_def unknown_user_def fetch_finally_def insert_handler_def delete_handler_def
  failure_def first_id_def Let_def store1_def or_else_def

section \<open>The claims\<close>

subsection \<open>C1: the sequence is unique by identifier and ascending\<close>

text \<open>
  Claim C1 says that for every sequence of insertion and deletion notifications interleaved
  with initial and pagination fetches the held sequence has each identifier at most once and
  is in ascending order of creation time. The code appends an inserted message at the end
  whatever its timestamp, and prepends a page without looking at identifiers. Two runs show
  it: in \<open>late_insert\<close> a notification carries a timestamp older than the message
  held, and the sequence is out of order; in \<open>early_click\<close> the button "Load More" is
  pressed while the initial fetch is in flight, its query has no bound, and both answers
  are kept, so every identifier is held twice.
\<close>

theorem feed_counterexample:
  "map created_at (messages (window (run fresh late_insert))) = [20, 10]
   \<and> \<not> feed_ok (messages (window (run fresh late_insert)))
   \<and> map msg_id (messages (window (run fresh early_click))) = [''m1'', ''m2'', ''m1'', ''m2'']
   \<and> \<not> feed_ok (messages (window (run fresh early_click)))"
proof -
  have 1: "map created_at (messages (window (run fresh late_insert))) = [20, 10]"
    by (simp add: late_insert_def ev_defs)
  have 2: "map msg_id (messages (window (run fresh early_click))) = [''m1'', ''m2'', ''m1'', ''m2'']"
    by (simp add: early_click_def ev_defs)
  show ?thesis by (simp add: feed_ok_def 1 2)
qed

text \<open>
  Claim C1 as amended: the sequence stays unique by identifier and ascending by creation
  time along every run in which each inserted row is not older than the messages held and
  each page is in descending order without repeated rows, a page of older messages lying
  strictly before the first message held (\<open>timely\<close>); and an insertion notification
  whose identifier is already held leaves the sequence unchanged.
\<close>

theorem feed_invariant:
  "(feed_ok (messages (window s)) \<and> along timely s evs \<longrightarrow> feed_ok (messages (window (run s evs))))
   \<and> (row_id new \<in> msg_id ` set (messages (window s)) \<longrightarrow>
        messages (window (step s (InsertNotified new res))) = messages (window s))"
  by (simp add: feed_run case_prod_beta insert_messages)

theorem feed_invariant_witness:
  "feed_ok (messages (window fresh)) \<and> along timely fresh orderly
   \<and> feed_ok (messages (window (run fresh orderly)))
   \<and> map msg_id (messages (window (run fresh (butlast orderly)))) = [''m1'', ''m2'', ''m3'']
   \<and> map msg_id (messages (window (run fresh orderly))) = [''m2'', ''m3'']
   \<and> row_id (text_row ''m3'' ''c1'' ''u1'' 30) \<in> msg_id ` set (messages (window (run fresh orderly)))
   \<and> messages (window (step (run fresh orderly) (InsertNotified (text_row ''m3'' ''c1'' ''u1'' 30) (failure ''no rows''))))
       = messages (window (run fresh orderly))"
proof -
  have 1: "feed_ok (messages (window fresh))"
    by (simp add: fresh_def mounted_def feed_ok_def)
  have 2: "along timely fresh orderly"
    by (simp add: orderly_def ev_defs before_first_def same_stamp_def)
  have 5: "map msg_id (messages (window (run fresh (butlast orderly)))) = [''m1'', ''m2'', ''m3'']"
    by (simp add: orderly_def ev_defs)
  have 3: "map msg_id (messages (window (run fresh orderly))) = [''m2'', ''m3'']"
    by (simp add: orderly_def ev_defs)
  then have 4: "row_id (text_row ''m3'' ''c1'' ''u1'' 30) \<in> msg_id ` set (messages (window (run fresh orderly)))"
    by (simp add: text_row_def flip: set_map)
  from feed_invariant[of fresh orderly "text_row ''m3'' ''c1'' ''u1'' 30" "failure ''no rows''"]
    feed_invariant[of "run fresh orderly" "[]" "text_row ''m3'' ''c1'' ''u1'' 30" "failure ''no rows''"]
    1 2 3 4 5 show ?thesis by blast
qed

subsection \<open>C2: the initial load\<close>

text \<open>
  Claim C2: the initial load asks the store for the 50 most recent messages of the
  conversation that are not deleted, in descending order of creation time; it holds them
  reversed, in ascending order. Each held message has the identifier, content, image
  reference, timestamp and sender of its row, and the profile of its sender as the one
  lookup for the distinct sender identifiers of the page answers it (no lookup for an empty
  page): username, display name or else username, avatar; "Unknown User" when the answer
  has no profile for the sender. \<open>hasMore\<close> is set if and only if the page has 50 rows.
\<close>

theorem initial_load:
  assumes "conversationId w = Some c" and "c \<noteq> []" and "currentUser w = Some u"
    and "page = run_query db (base_query c)"
    and "senders = unique (map row_sender_id page)"
    and "fetchMessages w p None False (answer db) profiles = (w', p')"
  shows "(\<forall>r\<in>set page. r \<in> set db \<and> row_conversation_id r = c \<and> \<not> row_is_deleted r)
       \<and> length page = min 50 (length (filter (\<lambda>r. row_conversation_id r = c \<and> \<not> row_is_deleted r) db))
       \<and> sorted (rev (map row_created_at page))
       \<and> (\<forall>r\<in>set db. row_conversation_id r = c \<and> \<not> row_is_deleted r \<and> r \<notin> set page \<longrightarrow>
            (\<forall>r'\<in>set page. row_created_at r \<le> row_created_at r'))
       \<and> messages w' =
           map (\<lambda>r. \<lparr>msg_id = row_id r, content = row_content r, image_url = row_image_url r,
                created_at = row_created_at r, sender_id = row_sender_id r,
                sender_profile =
                  (case (case data (profiles senders) of
                           None \<Rightarrow> None
                         | Some ps \<Rightarrow> find (\<lambda>pr. profile_id pr = row_sender_id r) (rev ps)) of
                     None \<Rightarrow> \<lparr>username = ''Unknown User'', display_name = ''Unknown User'', avatar_url = None\<rparr>
                   | Some pr \<Rightarrow>
                       \<lparr>username = profile_username pr,
                        display_name =
                          (case profile_display_name pr of
                             None \<Rightarrow> profile_username pr
                           | Some d \<Rightarrow> if d = [] then profile_username pr else d),
                        avatar_url = profile_avatar_url pr\<rparr>)\<rparr>)
             (rev page)
       \<and> sorted (map created_at (messages w'))
       \<and> distinct senders \<and> set senders = row_sender_id ` set page
       \<and> requests p' = requests p @ SelectMessages (base_query c) #
            (if page = [] then [] else [SelectProfilesIn senders])
       \<and> (hasMore w' \<longleftrightarrow> length page = 50)"
proof -
  let ?q = "base_query c"
  have nasc: "\<not> q_ascending ?q" and lim: "q_limit ?q = Some 50"
    by (simp_all add: base_query_def)
  have 1: "\<forall>r\<in>set page. r \<in> set db \<and> row_conversation_id r = c \<and> \<not> row_is_deleted r"
    using run_query_sound[of _ db ?q] assms(4) by (auto simp: matches_base)
  have 2: "length page = min 50 (length (filter (\<lambda>r. row_conversation_id r = c \<and> \<not> row_is_deleted r) db))"
    using run_query_length[OF lim, of db] assms(4) by (simp add: matches_base[abs_def])
  have 3: "sorted (rev (map row_created_at page))"
    using run_query_desc[OF nasc, of db] assms(4) by simp
  have 4: "\<forall>r\<in>set db. row_conversation_id r = c \<and> \<not> row_is_deleted r \<and> r \<notin> set page \<longrightarrow>
            (\<forall>r'\<in>set page. row_created_at r \<le> row_created_at r')"
    using run_query_recent[OF nasc, of _ db] assms(4) by (auto simp: matches_base)
  have ok: "error (answer db ?q) = None" "data (answer db ?q) = Some page"
    using assms(4) by (simp_all add: answer_def)
  let ?X = "fetchMessages_resume (w\<lparr>loading := True, isLoadingMore := False\<rparr>)
           (call (SelectMessages ?q) p) \<lparr>pf_query = ?q, pf_append = False\<rparr> (answer db ?q) profiles"
  have "(w', p') = ?X"
    using fetch_initial_unfold[OF assms(1-3)] assms(6) by simp
  then have fw: "w' = fst ?X" and sp: "p' = snd ?X"
    by (metis fst_conv, metis snd_conv)
  have 5: "messages w' =
           map (\<lambda>r. \<lparr>msg_id = row_id r, content = row_content r, image_url = row_image_url r,
                created_at = row_created_at r, sender_id = row_sender_id r,
                sender_profile =
                  (case (case data (profiles senders) of
                           None \<Rightarrow> None
                         | Some ps \<Rightarrow> find (\<lambda>pr. profile_id pr = row_sender_id r) (rev ps)) of
                     None \<Rightarrow> \<lparr>username = ''Unknown User'', display_name = ''Unknown User'', avatar_url = None\<rparr>
                   | Some pr \<Rightarrow>
                       \<lparr>username = profile_username pr,
                        display_name =
                          (case profile_display_name pr of
                             None \<Rightarrow> profile_username pr
                           | Some d \<Rightarrow> if d = [] then profile_username pr else d),
                        avatar_url = profile_avatar_url pr\<rparr>)\<rparr>)
             (rev page)"
    by (simp add: fw resume_success(1)[OF ok] assms(5) to_message_explicit)
  have 6: "sorted (map created_at (messages w'))"
    using 3 by (simp add: fw resume_success(1)[OF ok] o_def created_at_to_message rev_map)
  have 7: "distinct senders \<and> set senders = row_sender_id ` set page"
    using assms(5) by (simp add: distinct_unique set_unique)
  have 8: "requests p' = requests p @ SelectMessages ?q # (if page = [] then [] else [SelectProfilesIn senders])"
    by (simp add: sp resume_success(3)[OF ok] assms(5) call_def)
  have 9: "hasMore w' \<longleftrightarrow> length page = 50"
    by (simp add: fw resume_success(2)[OF ok])
  from 1 2 3 4 5 6 7 8 9 show ?thesis by blast
qed

theorem initial_load_witness:
  "messages (fst (fetchMessages (mounted (Some ''c1'') (Some ''u1'')) offline None False
       (answer store1) (profiles_in friends))) =
     [\<lparr>msg_id = ''m1'', content = Some ''hi'', image_url = None, created_at = 10, sender_id = ''u1'',
       sender_profile = \<lparr>username = ''ann'', display_name = ''Ann A.'', avatar_url = Some ''ann.png''\<rparr>\<rparr>,
      \<lparr>msg_id = ''m2'', content = Some ''hi'', image_url = None, created_at = 20, sender_id = ''u2'',
       sender_profile = \<lparr>username = ''bob'', display_name = ''bob'', avatar_url = None\<rparr>\<rparr>]
   \<and> \<not> hasMore (fst (fetchMessages (mounted (Some ''c1'') (Some ''u1'')) offline None False
       (answer store1) (profiles_in friends)))
   \<and> requests (snd (fetchMessages (mounted (Some ''c1'') (Some ''u1'')) offline None False
       (answer store1) (profiles_in friends))) =
       [SelectMessages (base_query ''c1''), SelectProfilesIn [''u2'', ''u1'']]
   \<and> sender_profile (hd (messages (fst (fetchMessages (mounted (Some ''c1'') (Some ''u1'')) offline None False
       (answer store1) (profiles_in people))))) =
       \<lparr>username = ''ann'', display_name = ''ann'', avatar_url = None\<rparr>
   \<and> sender_profile (last (messages (fst (fetchMessages (mounted (Some ''c1'') (Some ''u1'')) offline None False
       (answer store1) (profiles_in people))))) =
       \<lparr>username = ''Unknown User'', display_name = ''Unknown User'', avatar_url = None\<rparr>"
proof -
  let ?w = "mounted (Some ''c1'') (Some ''u1'')"
  have page: "run_query store1 (base_query ''c1'') =
      [text_row ''m2'' ''c1'' ''u2'' 20, text_row ''m1'' ''c1'' ''u1'' 10]"
    by (simp add: store1_def run_query_def base_query_def ordered_def matches_def text_row_def)
  have h: "conversationId ?w = Some ''c1''" "''c1'' \<noteq> []" "currentUser ?w = Some ''u1''"
    by (simp_all add: mounted_def)
  from initial_load[OF h refl refl surjective_pairing, of store1 offline "profiles_in friends"]
    initial_load[OF h refl refl surjective_pairing, of store1 offline "profiles_in people"]
  show ?thesis
    by (simp add: page unique_def text_row_def offline_def profiles_in_def friends_def people_def)
qed

subsection \<open>C3: loading older messages\<close>




subsection \<open>C4: answers for a conversation that is no longer active\<close>

text \<open>
  Claim C4 says that a fetch issued for the previously active conversation and answered
  after a switch is discarded. The code keeps no tag: in the run \<open>quick_switch\<close> the
  view moves from \<open>c1\<close> to \<open>c2\<close> with both initial fetches in flight, the answer for
  \<open>c2\<close> arrives first, and the later answer for \<open>c1\<close> replaces the sequence, which
  then holds a message of \<open>c1\<close> while \<open>c2\<close> is active.
\<close>

theorem stale_fetch_counterexample:
  "map pf_query (in_flight (run fresh (take 2 quick_switch))) = [base_query ''c1'', base_query ''c2'']
   \<and> conversationId (window (run fresh quick_switch)) = Some ''c2''
   \<and> map msg_id (messages (window (run fresh (take 3 quick_switch)))) = [''m2'']
   \<and> map msg_id (messages (window (run fresh quick_switch))) = [''m1'']
   \<and> \<not> list_all (of_conversation two_rooms ''c2'') (messages (window (run fresh quick_switch)))"
  by (simp add: quick_switch_def ev_defs two_rooms_def of_conversation_def)

text \<open>
  Claim C4 as amended: a fetch answer is applied when it arrives, with no check against the
  active conversation. A switch to another conversation leaves the sequence held as it
  is, and so does a fetch that is answered with an error; so after a switch the sequence
  holds the messages of the previous conversation until a fetch for the new one is
  answered without error. Once the initial fetch issued for the active conversation has
  been answered without error, the sequence holds only messages of that conversation, and
  it stays so as long as the view stays on the conversation and every later answer and
  insertion is for it (\<open>staying\<close>).
\<close>

theorem fetch_for_active_conversation:
  assumes "conversationId (window s) = Some c" and "i < length (in_flight s)"
    and "\<not> pf_append (in_flight s ! i)" and "error res = None"
    and "answers_for db c (in_flight s ! i) res"
    and "along (staying db c) (step s (FetchAnswered i res pres)) evs"
  shows "settled db c (run s (FetchAnswered i res pres # evs))
       \<and> (error res' \<noteq> None \<longrightarrow>
            messages (window (step sa (FetchAnswered j res' pres'))) = messages (window sa))
       \<and> (c' \<noteq> [] \<longrightarrow>
            messages (window (step sb (Rendered (Some c') (Some u) now))) = messages (window sb) \<and>
            conversationId (window (step sb (Rendered (Some c') (Some u) now))) = Some c')"
proof -
  have "settled db c (step s (FetchAnswered i res pres))"
    using assms(1-5) by (rule settled_by_initial_fetch)
  from settled_run[OF this assms(6)] have 1: "settled db c (run s (FetchAnswered i res pres # evs))"
    by (simp add: run_def)
  have 2: "messages (window (step sa (FetchAnswered j res' pres'))) = messages (window sa)"
    if "error res' \<noteq> None"
    using that by (simp add: case_prod_beta resume_failure fetch_finally_def)
  have 3: "messages (window (step sb (Rendered (Some c') (Some u) now))) = messages (window sb) \<and>
            conversationId (window (step sb (Rendered (Some c') (Some u) now))) = Some c'"
    if "c' \<noteq> []"
    using that
    by (simp add: case_prod_beta props_changed_messages truthy_def props_changed_def
        effect_cleanup_def effect_body_def release_frame begin_frame subscribe_frame)
  from 1 2 3 show ?thesis by blast
qed

theorem fetch_for_active_conversation_witness:
  "settled three_rows ''c1''
     (run (step fresh (Rendered (Some ''c1'') (Some ''u1'') 1))
        (FetchAnswered 0 (answer two_rooms (base_query ''c1'')) (profiles_in people [''u1'']) # same_room))
   \<and> map msg_id (messages (window
     (run (step fresh (Rendered (Some ''c1'') (Some ''u1'') 1))
        (FetchAnswered 0 (answer two_rooms (base_query ''c1'')) (profiles_in people [''u1'']) # same_room))))
     = [''m3'']
   \<and> map msg_id (messages (window (run fresh (take 2 failed_switch)))) = [''m1'']
   \<and> messages (window (step (run fresh (take 2 failed_switch)) (Rendered (Some ''c2'') (Some ''u1'') 2))) =
       messages (window (run fresh (take 2 failed_switch)))
   \<and> messages (window (step (run fresh (take 3 failed_switch))
         (FetchAnswered 0 (failure ''network'') (failure ''network'')))) =
       messages (window (run fresh (take 3 failed_switch)))
   \<and> conversationId (window (run fresh failed_switch)) = Some ''c2''
   \<and> map msg_id (messages (window (run fresh failed_switch))) = [''m1'']"
proof -
  let ?s = "step fresh (Rendered (Some ''c1'') (Some ''u1'') 1)"
  let ?res = "answer two_rooms (base_query ''c1'')"
  let ?pres = "profiles_in people [''u1'']"
  have s: "conversationId (window ?s) = Some ''c1''" "0 < length (in_flight ?s)"
    "\<not> pf_append (in_flight ?s ! 0)" "error ?res = None"
    by (simp_all add: ev_defs)
  have a: "answers_for three_rows ''c1'' (in_flight ?s ! 0) ?res"
    by (simp add: answers_for_def three_rows_def two_rooms_def ev_defs)
  have b: "along (staying three_rows ''c1'') (step ?s (FetchAnswered 0 ?res ?pres)) same_room"
    by (simp add: same_room_def three_rows_def two_rooms_def text_row_def)
  have c: "map msg_id (messages (window (run ?s (FetchAnswered 0 ?res ?pres # same_room)))) = [''m3'']"
    by (simp add: same_room_def two_rooms_def ev_defs)
  have d: "map msg_id (messages (window (run fresh (take 2 failed_switch)))) = [''m1'']"
    "conversationId (window (run fresh failed_switch)) = Some ''c2''"
    "map msg_id (messages (window (run fresh failed_switch))) = [''m1'']"
    by (simp_all add: failed_switch_def two_rooms_def ev_defs)
  have e: "error (failure ''network'' :: message_row list response) \<noteq> None" "''c2'' \<noteq> []"
    by (simp_all add: failure_def)
  from fetch_for_active_conversation[OF s a b,
      where res' = "failure ''network''" and sa = "run fresh (take 3 failed_switch)" and j = 0
        and pres' = "failure ''network''" and c' = "''c2''" and sb = "run fresh (take 2 failed_switch)"
        and u = "''u1''" and now = 2] c d e
  show ?thesis by simp
qed

subsection \<open>C5: an empty message is not sent\<close>

text \<open>
  Claim C5: with a text that is empty after trimming and no image selected,
  \<open>handleSendMessage\<close> returns at its guard: the state, the requests issued and the
  notices shown are all unchanged, so no row is inserted.
\<close>

theorem send_rejected:
  "trim (newMessage w) = [] \<Longrightarrow> selectedImage w = None \<Longrightarrow>
   handleSendMessage w p now upload publicUrl inserted = (w, p)"
  by (simp add: handleSendMessage_def split: option.splits)

theorem send_rejected_witness:
  "trim (newMessage ((mounted (Some ''c1'') (Some ''u1''))\<lparr>newMessage := ''   ''\<rparr>)) = [] \<and>
   selectedImage ((mounted (Some ''c1'') (Some ''u1''))\<lparr>newMessage := ''   ''\<rparr>) = None \<and>
   handleSendMessage ((mounted (Some ''c1'') (Some ''u1''))\<lparr>newMessage := ''   ''\<rparr>) offline 7
       (Returned None) ''x'' (Returned None)
     = ((mounted (Some ''c1'') (Some ''u1''))\<lparr>newMessage := ''   ''\<rparr>, offline)"
  using send_rejected[of "(mounted (Some ''c1'') (Some ''u1''))\<lparr>newMessage := ''   ''\<rparr>" offline 7
      "Returned None" "''x''" "Returned None"]
  by (simp add: trim_def is_space_def mounted_def)

subsection \<open>C6: the message type\<close>

text \<open>
  Claim C6: a send with an image uploads it and inserts a row of type \<open>image\<close>, whether
  or not there is text; a send with text only inserts a row of type \<open>text\<close>.
\<close>

theorem send_message_type:
  assumes "conversationId w = Some c" and "c \<noteq> []" and "currentUser w = Some u"
  shows "(selectedImage w = Some f \<and> url \<noteq> [] \<longrightarrow>
            requests (snd (handleSendMessage w p now (Returned None) url inserted)) =
              requests p @
              [StorageUpload u now f,
               InsertMessage \<lparr>md_conversation_id = c, md_sender_id = u,
                  md_content = (if trim (newMessage w) = [] then None else Some (trim (newMessage w))),
                  md_image_url = Some url, md_message_type = ImageType\<rparr>])
       \<and> (selectedImage w = None \<and> trim (newMessage w) \<noteq> [] \<longrightarrow>
            requests (snd (handleSendMessage w p now upload url inserted)) =
              requests p @
              [InsertMessage \<lparr>md_conversation_id = c, md_sender_id = u,
                  md_content = Some (trim (newMessage w)),
                  md_image_url = None, md_message_type = TextType\<rparr>])"
  using assms
  by (auto simp: handleSendMessage_def uploadImage_def send_insert_def send_catch_def messageData_def
      call_def notify_def truthy_def Let_def split: outcome.splits)

theorem send_message_type_witness:
  "requests (snd (handleSendMessage
      ((mounted (Some ''c1'') (Some ''u1''))\<lparr>newMessage := '' look '', selectedImage := Some \<lparr>file_name = ''cat.png''\<rparr>\<rparr>)
      offline 7 (Returned None) ''https://cdn/cat.png'' (Returned None))) =
     [StorageUpload ''u1'' 7 \<lparr>file_name = ''cat.png''\<rparr>,
      InsertMessage \<lparr>md_conversation_id = ''c1'', md_sender_id = ''u1'', md_content = Some ''look'',
         md_image_url = Some ''https://cdn/cat.png'', md_message_type = ImageType\<rparr>]
   \<and> requests (snd (handleSendMessage
      ((mounted (Some ''c1'') (Some ''u1''))\<lparr>newMessage := '' look ''\<rparr>)
      offline 7 (Returned None) ''https://cdn/cat.png'' (Returned None))) =
     [InsertMessage \<lparr>md_conversation_id = ''c1'', md_sender_id = ''u1'', md_content = Some ''look'',
         md_image_url = None, md_message_type = TextType\<rparr>]"
  using send_message_type[of "(mounted (Some ''c1'') (Some ''u1''))\<lparr>newMessage := '' look '', selectedImage := Some \<lparr>file_name = ''cat.png''\<rparr>\<rparr>"
      "''c1''" "''u1''" "\<lparr>file_name = ''cat.png''\<rparr>" "''https://cdn/cat.png''" offline 7 "Returned None" "Returned None"]
    send_message_type[of "(mounted (Some ''c1'') (Some ''u1''))\<lparr>newMessage := '' look ''\<rparr>"
      "''c1''" "''u1''" "\<lparr>file_name = ''cat.png''\<rparr>" "''https://cdn/cat.png''" offline 7 "Returned None" "Returned None"]
  by (simp add: mounted_def offline_def trim_def is_space_def)

subsection \<open>C7: a send does not append\<close>




subsection \<open>C8: one live channel\<close>




subsection \<open>C9: a failed fetch\<close>

text \<open>
  Claim C9: a fetch that fails leaves the sequence unchanged and shows a notice. The
  paginated \<open>fetchMessages\<close> returns at \<open>if (messagesError) return\<close>: the sequence is
  unchanged and nothing is retried (\<open>failed_fetch_frame\<close>), but no notice is shown,
  where the earlier \<open>fetchMessages\<close> shows "Failed to load messages" for the same answer.
\<close>

theorem failed_fetch_is_silent:
  "toasts (snd (fetchMessages (mounted (Some ''c1'') (Some ''u1'')) offline None False
            (\<lambda>q. failure ''network'') (profiles_in people))) = []
   \<and> toasts (snd (fetchMessages_legacy (mounted (Some ''c1'') (Some ''u1'')) offline
            (\<lambda>q. failure ''network'') (profiles_in people))) = [load_failed]"
  by (simp add: fetchMessages_def fetchMessages_legacy_def fetchMessages_begin_def fetchMessages_resume_def
      mounted_def offline_def failure_def call_def notify_def truthy_def Let_def fetch_finally_def)

subsection \<open>C10: a sender without a profile\<close>

text \<open>
  Claim C10: when the profile lookup fails or has no row for a sender, the message is held
  all the same, with the profile "Unknown User" without avatar: every row of a fetched page
  yields a message, and an inserted row whose lookup fails is appended.
\<close>

theorem unknown_sender_kept:
  "(error res = None \<and> data res = Some page \<and> r \<in> set page \<and>
      (data (profiles (unique (map row_sender_id page))) = None \<or>
       (\<exists>ps. data (profiles (unique (map row_sender_id page))) = Some ps \<and>
             row_sender_id r \<notin> profile_id ` set ps))
     \<longrightarrow> to_message r None \<in> set (messages (fst (fetchMessages_resume w p f res profiles)))
       \<and> length (messages (fst (fetchMessages_resume w p f res profiles))) =
           length page + (if pf_append f then length (messages w) else 0))
   \<and> (data pres = None \<and> row_id new \<notin> msg_id ` set (messages w)
     \<longrightarrow> messages (fst (insert_handler w p new pres)) = messages w @ [to_message new None])
   \<and> sender_profile (to_message r None) =
       \<lparr>username = ''Unknown User'', display_name = ''Unknown User'', avatar_url = None\<rparr>"
proof -
  have miss: "profilesMap pd (row_sender_id r) = None"
    if "pd = None \<or> (\<exists>ps. pd = Some ps \<and> row_sender_id r \<notin> profile_id ` set ps)" for pd
    using that by (rule profilesMap_miss)
  have 1: "to_message r None \<in> set (messages (fst (fetchMessages_resume w p f res profiles)))
       \<and> length (messages (fst (fetchMessages_resume w p f res profiles))) =
           length page + (if pf_append f then length (messages w) else 0)"
    if a: "error res = None" "data res = Some page" "r \<in> set page"
      "data (profiles (unique (map row_sender_id page))) = None \<or>
       (\<exists>ps. data (profiles (unique (map row_sender_id page))) = Some ps \<and>
             row_sender_id r \<notin> profile_id ` set ps)"
  proof -
    have "to_message r (profilesMap (data (profiles (unique (map row_sender_id page)))) (row_sender_id r))
            = to_message r None"
      using miss[OF a(4)] by simp
    then have "to_message r None \<in>
       (\<lambda>r. to_message r (profilesMap (data (profiles (unique (map row_sender_id page)))) (row_sender_id r))) ` set page"
      using a(3) by (metis (no_types, lifting) image_eqI)
    then show ?thesis
      by (simp add: resume_success(1)[OF a(1,2)])
  qed
  have 2: "messages (fst (insert_handler w p new pres)) = messages w @ [to_message new None]"
    if "data pres = None" "row_id new \<notin> msg_id ` set (messages w)"
    using that by (simp add: insert_messages)
  have 3: "sender_profile (to_message r None) =
       \<lparr>username = ''Unknown User'', display_name = ''Unknown User'', avatar_url = None\<rparr>"
    by (simp add: to_message_def to_sender_profile_def unknown_user_def)
  from 1 2 3 show ?thesis by blast
qed

theorem unknown_sender_kept_witness:
  "to_message (text_row ''m2'' ''c1'' ''u2'' 20) None \<in>
     set (messages (fst (fetchMessages_resume (mounted (Some ''c1'') (Some ''u1'')) offline
        \<lparr>pf_query = base_query ''c1'', pf_append = False\<rparr> (answer store1 (base_query ''c1'')) (profiles_in people))))
   \<and> length (messages (fst (fetchMessages_resume (mounted (Some ''c1'') (Some ''u1'')) offline
        \<lparr>pf_query = base_query ''c1'', pf_append = False\<rparr> (answer store1 (base_query ''c1'')) (profiles_in people)))) = 2
   \<and> messages (fst (insert_handler (mounted (Some ''c1'') (Some ''u1'')) offline
        (text_row ''m2'' ''c1'' ''u2'' 20) (failure ''no rows''))) = [to_message (text_row ''m2'' ''c1'' ''u2'' 20) None]"
proof -
  let ?w = "mounted (Some ''c1'') (Some ''u1'')"
  let ?res = "answer store1 (base_query ''c1'')"
  let ?page = "[text_row ''m2'' ''c1'' ''u2'' 20, text_row ''m1'' ''c1'' ''u1'' 10]"
  let ?r = "text_row ''m2'' ''c1'' ''u2'' 20"
  have 1: "error ?res = None" "data ?res = Some ?page" "?r \<in> set ?page"
    by (simp_all add: answer_def store1_def run_query_def base_query_def ordered_def matches_def text_row_def)
  have 2: "\<exists>ps. data (profiles_in people (unique (map row_sender_id ?page))) = Some ps \<and>
          row_sender_id ?r \<notin> profile_id ` set ps"
    by (simp add: profiles_in_def people_def unique_def text_row_def)
  have 3: "data (failure ''no rows'' :: profile_row response) = None"
    "row_id ?r \<notin> msg_id ` set (messages ?w)"
    by (simp_all add: failure_def mounted_def)
  from unknown_sender_kept[of ?res ?page ?r "profiles_in people" ?w offline
      "\<lparr>pf_query = base_query ''c1'', pf_append = False\<rparr>" "failure ''no rows''" ?r] 1 2 3
  show ?thesis by (simp add: mounted_def)
qed

end
